theory Spec2Isabelle
  imports Main "HOL-Library.Multiset"
begin

section \<open>Configuration\<close>

text \<open>
  The word list, \<open>GAME_CONFIG.MAX_ATTEMPTS\<close>, \<open>GAME_CONFIG.WORD_LENGTH\<close> and
  \<open>DEFAULT_STATS\<close> of the configuration file. A \<open>char\<close> stands for one code unit
  of a JavaScript string; every string the game handles on its own paths is ASCII.
\<close>

definition WORDS :: "string list" where
  "WORDS =
    [''CRANE'', ''SLATE'', ''AUDIO'', ''SPORT'', ''BREAK'', ''PLANT'', ''STORM'', ''DANCE'',
     ''TEACH'', ''ROUND'', ''PARTY'', ''SHARK'', ''BEACH'', ''TRAIN'', ''FRUIT'', ''BLANK'',
     ''DREAM'', ''SMART'', ''CLIMB'', ''QUIET'', ''BRAIN'', ''HEART'', ''MONEY'', ''POWER'',
     ''WORLD'', ''PIZZA'', ''SOLAR'', ''ROBOT'', ''CLOUD'', ''PIXEL'', ''MAGIC'', ''QUEEN'',
     ''THINK'', ''TIGER'', ''OCEAN'', ''MOUNT'', ''RIVER'', ''LIGHT'', ''MOUSE'', ''PHONE'']"

definition MAX_ATTEMPTS :: nat where
  "MAX_ATTEMPTS = 6"

definition WORD_LENGTH :: nat where
  "WORD_LENGTH = 5"

text \<open>
  The statistics object. Its fields are JavaScript numbers, that is doubles, and they
  are loaded from localStorage or from the cloud as they are. A field is modelled by
  the integer it holds and stands for a finite double with an integer value; fields
  that hold a fraction, \<open>NaN\<close> or no number are outside the model. \<open>x++\<close> stores the exact
  sum \<open>x + 1\<close> rounded to the nearest double: 53 significant bits, ties to the even
  significand. \<open>Math.max\<close> is exact.
\<close>

record game_stats =
  gamesPlayed :: int
  gamesWon :: int
  currentStreak :: int
  maxStreak :: int

fun bit_length :: "nat \<Rightarrow> nat" where
  "bit_length n = (if n = 0 then 0 else Suc (bit_length (n div 2)))"

declare bit_length.simps [simp del]

definition double_round :: "int \<Rightarrow> int" where
  "double_round n =
     (let m = nat \<bar>n\<bar>; e = bit_length m - 53; q = m div 2 ^ e; r = m mod 2 ^ e
      in if e = 0 then n
         else sgn n *
              int ((if 2 * r > 2 ^ e \<or> (2 * r = 2 ^ e \<and> odd q) then q + 1 else q) * 2 ^ e))"

definition js_increment :: "int \<Rightarrow> int" where
  "js_increment x = double_round (x + 1)"

definition DEFAULT_STATS :: game_stats where
  "DEFAULT_STATS = \<lparr>gamesPlayed = 0, gamesWon = 0, currentStreak = 0, maxStreak = 0\<rparr>"

section \<open>Scoring (the two passes of processGuess)\<close>

text \<open>
  \<open>letterStatus\<close> holds one of the strings "correct", "present", "absent" per position.
  \<open>targetArray\<close> starts as the letters of the target and has entries overwritten by
  \<open>null\<close>. A JavaScript array read out of range yields \<open>undefined\<close>, a write out of
  range extends the array with holes, and \<open>indexOf\<close> skips holes and compares with
  \<open>===\<close>; all three are written out.
\<close>

datatype letter_status = Correct | Present | Absent

datatype cell = Chr char | Null | Empty

datatype jsval = VChr char | VNull | Undefined

fun cell_value :: "cell \<Rightarrow> jsval" where
  "cell_value (Chr c) = VChr c"
| "cell_value Null = VNull"
| "cell_value Empty = Undefined"

definition array_get :: "cell list \<Rightarrow> nat \<Rightarrow> jsval" where
  "array_get xs i = (if i < length xs then cell_value (xs ! i) else Undefined)"

definition string_get :: "string \<Rightarrow> nat \<Rightarrow> jsval" where
  "string_get g i = (if i < length g then VChr (g ! i) else Undefined)"

definition array_set :: "cell list \<Rightarrow> nat \<Rightarrow> cell \<Rightarrow> cell list" where
  "array_set xs i v =
     (if i < length xs then xs[i := v] else xs @ replicate (i - length xs) Empty @ [v])"

fun indexOf :: "cell list \<Rightarrow> jsval \<Rightarrow> nat option" where
  "indexOf [] v = None"
| "indexOf (x # xs) v =
     (if x \<noteq> Empty \<and> cell_value x = v then Some 0 else map_option Suc (indexOf xs v))"

text \<open>The body of the first loop at index \<open>i\<close>: mark correct positions.\<close>

definition first_pass_step ::
  "string \<Rightarrow> nat \<Rightarrow> cell list \<times> letter_status list \<Rightarrow> cell list \<times> letter_status list" where
  "first_pass_step guessArray i st =
     (case st of (targetArray, letterStatus) \<Rightarrow>
        if string_get guessArray i = array_get targetArray i
        then (array_set targetArray i Null, letterStatus[i := Correct])
        else (targetArray, letterStatus))"

text \<open>The body of the second loop at index \<open>i\<close>: mark present letters.\<close>

definition second_pass_step ::
  "string \<Rightarrow> nat \<Rightarrow> cell list \<times> letter_status list \<Rightarrow> cell list \<times> letter_status list" where
  "second_pass_step guessArray i st =
     (case st of (targetArray, letterStatus) \<Rightarrow>
        if letterStatus ! i = Correct then (targetArray, letterStatus)
        else (case indexOf targetArray (string_get guessArray i) of
                None \<Rightarrow> (targetArray, letterStatus)
              | Some index \<Rightarrow> (array_set targetArray index Null, letterStatus[i := Present])))"

definition first_pass :: "string \<Rightarrow> string \<Rightarrow> cell list \<times> letter_status list" where
  "first_pass target guess =
     fold (first_pass_step guess) [0..<WORD_LENGTH] (map Chr target, replicate WORD_LENGTH Absent)"

definition score :: "string \<Rightarrow> string \<Rightarrow> letter_status list" where
  "score target guess =
     snd (fold (second_pass_step guess) [0..<WORD_LENGTH] (first_pass target guess))"

text \<open>
  The number of positions of the guess that hold letter \<open>L\<close> and are marked correct or
  present.
\<close>

definition credited :: "string \<Rightarrow> letter_status list \<Rightarrow> char \<Rightarrow> nat" where
  "credited guess letterStatus L =
     length (filter (\<lambda>i. guess ! i = L \<and> letterStatus ! i \<noteq> Absent) [0..<WORD_LENGTH])"

section \<open>The session state\<close>

text \<open>
  A tile element of the document: its text and its class list. The board maps the
  position \<open>(row, col)\<close> to the element with id \<open>tile-row-col\<close>; \<open>None\<close> is the \<open>null\<close>
  that \<open>getElementById\<close> returns when no such element exists.
\<close>

record tile =
  textContent :: string
  className :: "string list"

type_synonym board = "nat \<times> nat \<Rightarrow> tile option"

definition new_tile :: tile where
  "new_tile = \<lparr>textContent = '''', className = [''tile'']\<rparr>"

definition classList_add :: "string \<Rightarrow> string list \<Rightarrow> string list" where
  "classList_add c cs = (if c \<in> set cs then cs else cs @ [c])"

definition classList_remove :: "string \<Rightarrow> string list \<Rightarrow> string list" where
  "classList_remove c cs = removeAll c cs"

fun status_class :: "letter_status \<Rightarrow> string" where
  "status_class Correct = ''correct''"
| "status_class Present = ''present''"
| "status_class Absent = ''absent''"

text \<open>
  The snapshot object that saveCompleteGameState serialises. The value stored under
  \<open>GAME_STATE_KEY\<close> is represented by what \<open>JSON.parse\<close> makes of it: a syntax error
  (\<open>Unparseable\<close>, which also covers the empty string, and the value \<open>null\<close>, whose
  first field access throws) or an object. The object carries the four restored fields
  with the types that saveCompleteGameState writes; \<open>s_boardState = None\<close> is an object
  without a \<open>boardState\<close> array. \<open>JSON.parse (JSON.stringify x) = x\<close> for such objects is
  the platform's guarantee and is built into this representation.
\<close>

record tile_entry =
  e_row :: nat
  e_col :: nat
  e_content :: string
  e_className :: "string list"

record snapshot =
  s_timestamp :: nat
  s_active :: bool
  s_targetWord :: string
  s_currentRow :: nat
  s_currentTile :: nat
  s_gameOver :: bool
  s_boardState :: "tile_entry list option"
  s_guesses :: "string list"

datatype stored_snapshot = Unparseable | Parsed snapshot

text \<open>
  Keys are compared with "ENTER" and the backspace sign only; \<open>Other k\<close> is any other
  key, with its text.
\<close>

datatype key = Enter | Backspace | Other string

datatype notice =
  Not_enough_letters | Invalid_input | Not_in_word_list | Error_validating_word | Game_restored

datatype outcome = Won | Lost

text \<open>
  Work that the code leaves pending: the promise of \<open>isValidWord\<close> for a guess, the
  timers set by processGuess (one reveal per position, then the result check), and the
  rest of endGameWon or endGameLost behind \<open>await saveStatsToSupabase\<close>.
\<close>

datatype task = Validate string | Reveal nat letter_status | Check string | Finish outcome

datatype reply = Resolved bool | Rejected

text \<open>
  The module-level variables, the tiles of the document, the message and modal
  elements, the used keys of localStorage and sessionStorage, and the pending work.
  \<open>supabase\<close> says whether \<open>saveStatsToSupabase\<close> is defined.
\<close>

record game =
  targetWord :: string
  currentRow :: nat
  currentTile :: nat
  gameOver :: bool
  stats :: game_stats
  isValidating :: bool
  inputEnabled :: bool
  gameStarted :: bool
  board :: board
  message :: "notice option"
  modal :: "(outcome \<times> string) option"
  ls_gameState :: "stored_snapshot option"
  ls_activeGame :: "string option"
  ls_stats :: "game_stats option"
  ss_session :: bool
  supabase :: bool
  pending :: "task list"

definition all_positions :: "(nat \<times> nat) list" where
  "all_positions = concat (map (\<lambda>i. map (\<lambda>j. (i, j)) [0..<WORD_LENGTH]) [0..<MAX_ATTEMPTS])"

section \<open>Persisting and restoring the session\<close>

definition showMessage :: "notice \<Rightarrow> game \<Rightarrow> game" where
  "showMessage text s = s\<lparr>message := Some text\<rparr>"

text \<open>
  The nested iteration of saveCompleteGameState over the tiles. Reading \<open>textContent\<close> of a
  missing tile throws, which aborts the function before it writes anything (\<open>None\<close>).
\<close>

fun read_tiles :: "(nat \<times> nat) list \<Rightarrow> board \<Rightarrow> tile_entry list option" where
  "read_tiles [] b = Some []"
| "read_tiles (p # ps) b =
     (case b p of
        None \<Rightarrow> None
      | Some t \<Rightarrow>
          (case read_tiles ps b of
             None \<Rightarrow> None
           | Some es \<Rightarrow>
               Some (\<lparr>e_row = fst p, e_col = snd p, e_content = textContent t,
                      e_className = className t\<rparr> # es)))"

definition saveCompleteGameState :: "nat \<Rightarrow> game \<Rightarrow> game" where
  "saveCompleteGameState now s =
     (if gameStarted s \<and> \<not> gameOver s then
        (case read_tiles all_positions (board s) of
           None \<Rightarrow> s
         | Some boardState \<Rightarrow>
             s\<lparr>ls_gameState :=
                 Some (Parsed \<lparr>s_timestamp = now, s_active = True, s_targetWord = targetWord s,
                               s_currentRow = currentRow s, s_currentTile = currentTile s,
                               s_gameOver = gameOver s, s_boardState = Some boardState,
                               s_guesses = []\<rparr>),
               ls_activeGame := Some ''true''\<rparr>)
      else s)"

text \<open>The callback of \<open>state.boardState.forEach\<close>: entries without a tile are skipped.\<close>

definition restore_tile :: "tile_entry \<Rightarrow> board \<Rightarrow> board" where
  "restore_tile e b =
     (case b (e_row e, e_col e) of
        None \<Rightarrow> b
      | Some tileEl \<Rightarrow>
          b((e_row e, e_col e) \<mapsto> tileEl\<lparr>textContent := e_content e, className := e_className e\<rparr>))"

text \<open>
  restoreGameState returns its boolean and the state it leaves. The four assignments
  and \<open>gameStarted = true\<close> come before \<open>state.boardState.forEach\<close>; when \<open>boardState\<close> is
  missing that call throws, and the \<open>catch\<close> returns false without undoing them.
\<close>

definition restoreGameState :: "game \<Rightarrow> bool \<times> game" where
  "restoreGameState s =
     (case ls_gameState s of
        None \<Rightarrow> (False, s)
      | Some savedGameState \<Rightarrow>
          if ls_activeGame s = Some ''true'' then
            (case savedGameState of
               Unparseable \<Rightarrow> (False, s)
             | Parsed state \<Rightarrow>
                 (let s1 = s\<lparr>targetWord := s_targetWord state, currentRow := s_currentRow state,
                             currentTile := s_currentTile state, gameOver := s_gameOver state,
                             gameStarted := True\<rparr>
                  in case s_boardState state of
                       None \<Rightarrow> (False, s1)
                     | Some boardState \<Rightarrow>
                         (True,
                          showMessage Game_restored
                            (s1\<lparr>board := fold restore_tile boardState (board s1)\<rparr>))))
          else (False, s))"

definition initSessionProtection :: "game \<Rightarrow> game" where
  "initSessionProtection s =
     (if \<not> ss_session s then
        (case restoreGameState (s\<lparr>ss_session := True\<rparr>) of
           (restored, s') \<Rightarrow>
             if \<not> restored
             then s'\<lparr>gameStarted := False, ls_gameState := None, ls_activeGame := None\<rparr>
             else s')
      else s)"

text \<open>
  createBoard appends thirty new tiles. \<open>getElementById\<close> returns the first element
  with an id, so a tile that already exists keeps answering for its position.
\<close>

definition createBoard :: "game \<Rightarrow> game" where
  "createBoard s =
     s\<lparr>board := (\<lambda>p. if p \<in> set all_positions
                      then (case board s p of None \<Rightarrow> Some new_tile | Some t \<Rightarrow> Some t)
                      else board s p)\<rparr>"

text \<open>
  Loading the page runs the top level of the script and then initGame. The old page's
  variables, document and pending callbacks are gone; localStorage stays, and
  sessionStorage stays unless the tab is new. \<open>k\<close> is
  \<open>Math.floor(Math.random() * WORDS.length)\<close>, and \<open>cloud\<close> is what
  \<open>loadStatsFromSupabase\<close> delivers (\<open>None\<close> when it is undefined or yields nothing).
\<close>

definition stored_stats :: "game \<Rightarrow> game_stats" where
  "stored_stats s = (case ls_stats s of None \<Rightarrow> DEFAULT_STATS | Some st \<Rightarrow> st)"

definition module_init :: "nat \<Rightarrow> bool \<Rightarrow> game \<Rightarrow> game" where
  "module_init k new_tab s =
     \<lparr>targetWord = WORDS ! k, currentRow = 0, currentTile = 0, gameOver = False,
      stats = stored_stats s, isValidating = False, inputEnabled = True, gameStarted = False,
      board = (\<lambda>p. None), message = None, modal = None,
      ls_gameState = ls_gameState s, ls_activeGame = ls_activeGame s, ls_stats = ls_stats s,
      ss_session = (if new_tab then False else ss_session s), supabase = supabase s,
      pending = []\<rparr>"

definition initGame :: "game_stats option \<Rightarrow> game \<Rightarrow> game" where
  "initGame cloud s =
     createBoard
       (initSessionProtection
          (s\<lparr>stats := (case cloud of Some supabaseStats \<Rightarrow> supabaseStats
                        | None \<Rightarrow> stored_stats s)\<rparr>))"

definition page_load :: "nat \<Rightarrow> bool \<Rightarrow> game_stats option \<Rightarrow> game \<Rightarrow> game" where
  "page_load k new_tab cloud s = initGame cloud (module_init k new_tab s)"

text \<open>A browser that has never run the game: nothing is stored.\<close>

definition no_storage :: "bool \<Rightarrow> game" where
  "no_storage sb =
     \<lparr>targetWord = '''', currentRow = 0, currentTile = 0, gameOver = False,
      stats = DEFAULT_STATS, isValidating = False, inputEnabled = True, gameStarted = False,
      board = (\<lambda>p. None), message = None, modal = None,
      ls_gameState = None, ls_activeGame = None, ls_stats = None,
      ss_session = False, supabase = sb, pending = []\<rparr>"

definition first_visit :: "bool \<Rightarrow> nat \<Rightarrow> game_stats option \<Rightarrow> game" where
  "first_visit sb k cloud = page_load k True cloud (no_storage sb)"

section \<open>Input\<close>

text \<open>
  A statement that dereferences a missing tile throws; the handler stops there and the
  state stays as the statements before it left it.
\<close>

definition addLetter :: "string \<Rightarrow> game \<Rightarrow> game" where
  "addLetter letter s =
     (if currentTile s \<ge> WORD_LENGTH then s
      else
        (let s1 = (if currentTile s = 0 \<and> currentRow s = 0 then s\<lparr>gameStarted := True\<rparr> else s)
         in case board s1 (currentRow s1, currentTile s1) of
              None \<Rightarrow> s1
            | Some t \<Rightarrow>
                s1\<lparr>board := (board s1)((currentRow s1, currentTile s1) \<mapsto>
                              t\<lparr>textContent := letter,
                                className := classList_add ''filled'' (className t)\<rparr>),
                   currentTile := currentTile s1 + 1\<rparr>))"

definition deleteLetter :: "game \<Rightarrow> game" where
  "deleteLetter s =
     (if currentTile s > 0 then
        (let s1 = s\<lparr>currentTile := currentTile s - 1\<rparr>
         in case board s1 (currentRow s1, currentTile s1) of
              None \<Rightarrow> s1
            | Some t \<Rightarrow>
                s1\<lparr>board := (board s1)((currentRow s1, currentTile s1) \<mapsto>
                              t\<lparr>textContent := '''',
                                className := classList_remove ''filled'' (className t)\<rparr>)\<rparr>)
      else s)"

text \<open>The loop of submitGuess that concatenates the texts of the current row.\<close>

fun read_row :: "board \<Rightarrow> nat \<Rightarrow> nat list \<Rightarrow> string option" where
  "read_row b r [] = Some ''''"
| "read_row b r (i # is) =
     (case b (r, i) of
        None \<Rightarrow> None
      | Some t \<Rightarrow> map_option ((@) (textContent t)) (read_row b r is))"

text \<open>The white space that \<open>trim\<close> removes, among the code units below 256.\<close>

definition js_whitespace :: "char \<Rightarrow> bool" where
  "js_whitespace c =
     (c \<in> set [CHR 0x09, CHR 0x0A, CHR 0x0B, CHR 0x0C, CHR 0x0D, CHR 0x20, CHR 0xA0])"

definition submitGuess :: "game \<Rightarrow> game" where
  "submitGuess s =
     (if isValidating s then s
      else if currentTile s < WORD_LENGTH then showMessage Not_enough_letters s
      else
        (case read_row (board s) (currentRow s) [0..<WORD_LENGTH] of
           None \<Rightarrow> s
         | Some guess \<Rightarrow>
             if length guess \<noteq> WORD_LENGTH \<or> list_all js_whitespace guess
             then showMessage Invalid_input s
             else s\<lparr>isValidating := True, pending := pending s @ [Validate guess]\<rparr>))"

definition handleKeyPress :: "key \<Rightarrow> game \<Rightarrow> game" where
  "handleKeyPress k s =
     (if gameOver s then s
      else if \<not> inputEnabled s then s
      else if isValidating s \<and> k = Enter then s
      else if isValidating s \<and> k = Backspace then s
      else (case k of
              Enter \<Rightarrow> submitGuess s
            | Backspace \<Rightarrow> deleteLetter s
            | Other letter \<Rightarrow> if currentTile s < WORD_LENGTH then addLetter letter s else s))"

section \<open>Processing a guess and ending the game\<close>

text \<open>
  processGuess computes the statuses and sets six timers. The colouring of the
  on-screen keyboard done by the reveal callbacks is presentation and is left out.
\<close>

definition processGuess :: "string \<Rightarrow> game \<Rightarrow> game" where
  "processGuess guess s =
     (let letterStatus = score (targetWord s) guess
      in s\<lparr>pending := pending s @ map (\<lambda>i. Reveal i (letterStatus ! i)) [0..<WORD_LENGTH]
                          @ [Check guess]\<rparr>)"

definition validation_then :: "bool \<Rightarrow> string \<Rightarrow> game \<Rightarrow> game" where
  "validation_then isValid guess s =
     (if \<not> isValid then (showMessage Not_in_word_list s)\<lparr>isValidating := False\<rparr>
      else processGuess guess s)"

definition validation_catch :: "game \<Rightarrow> game" where
  "validation_catch s = (showMessage Error_validating_word s)\<lparr>isValidating := False\<rparr>"

definition reveal :: "nat \<Rightarrow> letter_status \<Rightarrow> game \<Rightarrow> game" where
  "reveal i st s =
     (case board s (currentRow s, i) of
        None \<Rightarrow> s
      | Some t \<Rightarrow>
          s\<lparr>board := (board s)((currentRow s, i) \<mapsto>
                       t\<lparr>className := classList_add (status_class st) (className t)\<rparr>)\<rparr>)"

text \<open>What endGameWon and endGameLost do after saving to the cloud.\<close>

definition finish_game :: "outcome \<Rightarrow> game \<Rightarrow> game" where
  "finish_game w s =
     s\<lparr>ls_stats := Some (stats s), gameStarted := False, ls_gameState := None,
       ls_activeGame := None, modal := Some (w, targetWord s)\<rparr>"

definition endGameWon :: "game \<Rightarrow> game" where
  "endGameWon s =
     (let st = stats s;
          st1 = st\<lparr>gamesPlayed := js_increment (gamesPlayed st),
                   gamesWon := js_increment (gamesWon st),
                   currentStreak := js_increment (currentStreak st)\<rparr>;
          s1 = s\<lparr>gameOver := True,
                 stats := st1\<lparr>maxStreak := max (maxStreak st1) (currentStreak st1)\<rparr>\<rparr>
      in if supabase s1 then s1\<lparr>pending := pending s1 @ [Finish Won]\<rparr>
         else finish_game Won s1)"

definition endGameLost :: "game \<Rightarrow> game" where
  "endGameLost s =
     (let st = stats s;
          s1 = s\<lparr>gameOver := True,
                 stats := st\<lparr>gamesPlayed := js_increment (gamesPlayed st),
                             currentStreak := 0\<rparr>\<rparr>
      in if supabase s1 then s1\<lparr>pending := pending s1 @ [Finish Lost]\<rparr>
         else finish_game Lost s1)"

definition checkGameResult :: "string \<Rightarrow> game \<Rightarrow> game" where
  "checkGameResult guess s =
     (if guess = targetWord s then endGameWon s
      else if currentRow s = MAX_ATTEMPTS - 1 then endGameLost s
      else s\<lparr>currentRow := currentRow s + 1, currentTile := 0\<rparr>)"

text \<open>The last timer of processGuess.\<close>

definition check_timer :: "string \<Rightarrow> game \<Rightarrow> game" where
  "check_timer guess s = (checkGameResult guess s)\<lparr>isValidating := False\<rparr>"

fun clear_tiles :: "(nat \<times> nat) list \<Rightarrow> board \<Rightarrow> board" where
  "clear_tiles [] b = b"
| "clear_tiles (p # ps) b =
     (case b p of None \<Rightarrow> b | Some t \<Rightarrow> clear_tiles ps (b(p \<mapsto> new_tile)))"

definition resetToNewGame :: "nat \<Rightarrow> bool \<Rightarrow> game \<Rightarrow> game" where
  "resetToNewGame k skipBoardClear s =
     (let s1 = s\<lparr>modal := (if skipBoardClear then modal s else None),
                 ls_gameState := None, ls_activeGame := None,
                 targetWord := WORDS ! k, currentRow := 0, currentTile := 0,
                 gameOver := False, gameStarted := False, isValidating := False,
                 inputEnabled := True\<rparr>
      in if skipBoardClear then s1
         else s1\<lparr>board := clear_tiles all_positions (board s1)\<rparr>)"

section \<open>Events\<close>

text \<open>
  A pending task runs when its promise settles or its timer fires. The reply matters
  to the promises only; a rejected cloud save abandons the rest of endGameWon.
\<close>

fun run_task :: "task \<Rightarrow> reply \<Rightarrow> game \<Rightarrow> game" where
  "run_task (Validate guess) (Resolved isValid) s = validation_then isValid guess s"
| "run_task (Validate guess) Rejected s = validation_catch s"
| "run_task (Reveal i st) r s = reveal i st s"
| "run_task (Check guess) r s = check_timer guess s"
| "run_task (Finish w) (Resolved b) s = finish_game w s"
| "run_task (Finish w) Rejected s = s"

definition fire :: "nat \<Rightarrow> reply \<Rightarrow> game \<Rightarrow> game" where
  "fire n r s =
     (if n < length (pending s)
      then run_task (pending s ! n) r (s\<lparr>pending := take n (pending s) @ drop (Suc n) (pending s)\<rparr>)
      else s)"

text \<open>
  The states the game can be in between two events, from a first visit on: a key is
  pressed (the listener of the physical keyboard either returns or calls
  handleKeyPress), a pending task runs (in any order), the page is hidden or unloaded
  and saves the snapshot, a new game is started, or the page is loaded again.
  \<open>offer\<close> says in which states the page lets the player start a new game;
  resetToNewGame is documented as the reset "after game ends".
  initGame first awaits the statistics of the cloud; a key pressed meanwhile finds no
  tile, and the page load is taken as one step.
\<close>

inductive reachable :: "(game \<Rightarrow> bool) \<Rightarrow> game \<Rightarrow> bool" for offer :: "game \<Rightarrow> bool" where
  visit: "k < length WORDS \<Longrightarrow> reachable offer (first_visit sb k cloud)"
| press: "reachable offer s \<Longrightarrow> reachable offer (handleKeyPress key s)"
| settle: "reachable offer s \<Longrightarrow> reachable offer (fire n r s)"
| hide: "reachable offer s \<Longrightarrow> reachable offer (saveCompleteGameState now s)"
| reset: "reachable offer s \<Longrightarrow> offer s \<Longrightarrow> k < length WORDS \<Longrightarrow>
          reachable offer (resetToNewGame k skip s)"
| reload: "reachable offer s \<Longrightarrow> k < length WORDS \<Longrightarrow>
           reachable offer (page_load k new_tab cloud s)"

section \<open>Invariants\<close>

text \<open>
  The invariant of both scoring passes: the credit given for a letter and the
  occurrences of that letter still unconsumed in \<open>targetArray\<close> add up to its
  occurrences in the target.
\<close>

definition balanced :: "string \<Rightarrow> string \<Rightarrow> cell list \<times> letter_status list \<Rightarrow> bool" where
  "balanced target guess st =
     (case st of (targetArray, letterStatus) \<Rightarrow>
        length letterStatus = WORD_LENGTH \<and>
        (\<forall>L. credited guess letterStatus L + count_list targetArray (Chr L) = count_list target L))"

text \<open>
  The invariant of the input gate: the cursor never passes the end of the row, a row
  under validation is full, and a stored snapshot holds a cursor in range.
\<close>

definition gate_inv :: "game \<Rightarrow> bool" where
  "gate_inv s \<longleftrightarrow>
     currentTile s \<le> WORD_LENGTH \<and>
     (isValidating s \<and> \<not> gameOver s \<longrightarrow> currentTile s = WORD_LENGTH) \<and>
     (\<forall>snap. ls_gameState s = Some (Parsed snap) \<longrightarrow> s_currentTile snap \<le> WORD_LENGTH)"

text \<open>The target word, and the one of a stored snapshot, are words of the list.\<close>

definition word_inv :: "game \<Rightarrow> bool" where
  "word_inv s \<longleftrightarrow>
     targetWord s \<in> set WORDS \<and>
     (\<forall>snap. ls_gameState s = Some (Parsed snap) \<longrightarrow> s_targetWord snap \<in> set WORDS)"




text \<open>
  Sequences of the three operations. A submission runs to its end: the validity check
  answers with \<open>r\<close>, and every timer it sets fires, in the order in which they were set.
\<close>

datatype op = AddLetter string | DeleteLetter | SubmitAndScore reply

fun task_weight :: "task \<Rightarrow> nat" where
  "task_weight (Validate guess) = 8"
| "task_weight (Check guess) = 2"
| "task_weight (Reveal i st) = 1"
| "task_weight (Finish w) = 1"

function run_pending :: "reply \<Rightarrow> game \<Rightarrow> game" where
  "run_pending r s = (if pending s = [] then s else run_pending r (fire 0 r s))"
  by pat_completeness auto
termination
proof (relation "measure (\<lambda>(r, s). sum_list (map task_weight (pending s)))")
  show "wf (measure (\<lambda>(r, s). sum_list (map task_weight (pending s))))" by simp
next
  fix r :: reply and s :: game
  assume ne: "pending s \<noteq> []"
  then obtain t ts where p: "pending s = t # ts" by (cases "pending s") auto
  have "sum_list (map task_weight (pending (run_task t r (s\<lparr>pending := ts\<rparr>))))
        < task_weight t + sum_list (map task_weight ts)"
    by (cases t; cases r)
       (auto simp: validation_then_def validation_catch_def processGuess_def showMessage_def
          reveal_def check_timer_def checkGameResult_def endGameWon_def endGameLost_def
          finish_game_def Let_def WORD_LENGTH_def comp_def sum_list_triv split: option.splits)
  with p show "((r, fire 0 r s), (r, s)) \<in> measure (\<lambda>(r, s). sum_list (map task_weight (pending s)))"
    by (simp add: fire_def)
qed

declare run_pending.simps [simp del]

fun exec_op :: "op \<Rightarrow> game \<Rightarrow> game" where
  "exec_op (AddLetter letter) s = addLetter letter s"
| "exec_op DeleteLetter s = deleteLetter s"
| "exec_op (SubmitAndScore r) s = run_pending r (submitGuess s)"

definition cursor_inv :: "game \<Rightarrow> bool" where
  "cursor_inv s \<longleftrightarrow> currentTile s \<le> WORD_LENGTH \<and> currentRow s < MAX_ATTEMPTS"

text \<open>The snapshot entry that saveCompleteGameState writes for the tile at a position.\<close>

definition entry_of :: "board \<Rightarrow> nat \<times> nat \<Rightarrow> tile_entry" where
  "entry_of b p =
     \<lparr>e_row = fst p, e_col = snd p, e_content = textContent (the (b p)),
      e_className = className (the (b p))\<rparr>"

text \<open>Concrete sessions used below.\<close>

definition typed_crane :: game where
  "typed_crane =
     handleKeyPress (Other ''E'') (handleKeyPress (Other ''N'') (handleKeyPress (Other ''A'')
       (handleKeyPress (Other ''R'') (handleKeyPress (Other ''C'') (first_visit False 0 None)))))"

definition one_letter_typed :: game where
  "one_letter_typed = handleKeyPress (Other ''C'') (first_visit False 0 None)"

definition snapshot_without_board :: snapshot where
  "snapshot_without_board =
     \<lparr>s_timestamp = 0, s_active = True, s_targetWord = ''SLATE'', s_currentRow = 3,
      s_currentTile = 2, s_gameOver = True, s_boardState = None, s_guesses = []\<rparr>"

definition corrupt_store :: game where
  "corrupt_store =
     (no_storage False)\<lparr>ls_gameState := Some (Parsed snapshot_without_board),
                         ls_activeGame := Some ''true''\<rparr>"

text \<open>Statistics whose counts sit at \<open>2 ^ 53\<close>, where a double no longer holds every integer.\<close>

definition saturated_stats :: game_stats where
  "saturated_stats =
     \<lparr>gamesPlayed = 9007199254740992, gamesWon = 9007199254740992,
      currentStreak = 9007199254740992, maxStreak = 9007199254740992\<rparr>"



section \<open>The scoring never over-credits a letter\<close>

lemma filter_flip_one:
  "distinct xs \<Longrightarrow> i \<in> set xs \<Longrightarrow> \<not> P i \<Longrightarrow> Q i \<Longrightarrow> (\<forall>j. j \<noteq> i \<longrightarrow> Q j = P j) \<Longrightarrow>
   length (filter Q xs) = Suc (length (filter P xs))"
proof (induction xs)
  case Nil
  then show ?case by simp
next
  case (Cons x xs)
  show ?case
  proof (cases "x = i")
    case True
    with Cons.prems have "i \<notin> set xs" by simp
    with Cons.prems have "filter Q xs = filter P xs"
      by (intro filter_cong) auto
    with True Cons.prems show ?thesis by simp
  next
    case False
    with Cons show ?thesis by auto
  qed
qed

lemma filter_same:
  "(\<forall>j \<in> set xs. Q j = P j) \<Longrightarrow> length (filter Q xs) = length (filter P xs)"
  by (induction xs) auto

lemma credited_update:
  assumes "i < WORD_LENGTH" "ls ! i = Absent" "st \<noteq> Absent" "length ls = WORD_LENGTH"
  shows "credited g (ls[i := st]) L = credited g ls L + (if g ! i = L then 1 else 0)"
proof (cases "g ! i = L")
  case True
  have "length (filter (\<lambda>j. g ! j = L \<and> ls[i := st] ! j \<noteq> Absent) [0..<WORD_LENGTH])
        = Suc (length (filter (\<lambda>j. g ! j = L \<and> ls ! j \<noteq> Absent) [0..<WORD_LENGTH]))"
    using assms True by (intro filter_flip_one[where i = i]) (auto simp: nth_list_update)
  with True show ?thesis by (simp add: credited_def)
next
  case False
  have "length (filter (\<lambda>j. g ! j = L \<and> ls[i := st] ! j \<noteq> Absent) [0..<WORD_LENGTH])
        = length (filter (\<lambda>j. g ! j = L \<and> ls ! j \<noteq> Absent) [0..<WORD_LENGTH])"
    using assms False by (intro filter_same) (auto simp: nth_list_update)
  with False show ?thesis by (simp add: credited_def)
qed

lemma count_list_update:
  "j < length xs \<Longrightarrow>
   count_list (xs[j := b]) x + (if x = xs ! j then 1 else 0) =
   count_list xs x + (if x = b then 1 else 0)"
proof (induction xs arbitrary: j)
  case Nil
  then show ?case by simp
next
  case (Cons a xs)
  show ?case
  proof (cases j)
    case 0
    then show ?thesis by simp
  next
    case (Suc k)
    with Cons.prems have "k < length xs" by simp
    from Cons.IH[OF this] Suc show ?thesis by (auto split: if_splits)
  qed
qed

lemma indexOf_Some:
  "indexOf xs (VChr c) = Some j \<Longrightarrow> j < length xs \<and> xs ! j = Chr c"
proof (induction xs arbitrary: j)
  case Nil
  then show ?case by simp
next
  case (Cons x xs)
  then show ?case by (cases x) (auto split: if_splits)
qed

lemma consume_balanced:
  assumes bal: "balanced t g (ta, ls)" and i: "i < WORD_LENGTH" and abs: "ls ! i = Absent"
    and j: "j < length ta" "ta ! j = Chr (g ! i)" and st: "st \<noteq> Absent"
  shows "balanced t g (array_set ta j Null, ls[i := st])"
proof -
  have len: "length ls = WORD_LENGTH" using bal by (simp add: balanced_def)
  have "credited g (ls[i := st]) L + count_list (array_set ta j Null) (Chr L) = count_list t L" for L
  proof -
    have c: "credited g (ls[i := st]) L = credited g ls L + (if g ! i = L then 1 else 0)"
      using credited_update[OF i abs st len] .
    have "count_list (ta[j := Null]) (Chr L) + (if Chr L = ta ! j then 1 else 0) =
          count_list ta (Chr L) + (if Chr L = Null then 1 else 0)"
      using count_list_update[OF j(1)] .
    then have d: "count_list (ta[j := Null]) (Chr L) + (if g ! i = L then 1 else 0) = count_list ta (Chr L)"
      using j(2) by auto
    have "credited g ls L + count_list ta (Chr L) = count_list t L"
      using bal by (simp add: balanced_def)
    with c d show ?thesis using j(1) by (simp add: array_set_def)
  qed
  then show ?thesis using len by (simp add: balanced_def)
qed

lemma first_pass_inv:
  assumes g: "length g = WORD_LENGTH" and n: "n \<le> WORD_LENGTH"
  shows "case fold (first_pass_step g) [0..<n] (map Chr t, replicate WORD_LENGTH Absent) of
           (ta, ls) \<Rightarrow> balanced t g (ta, ls) \<and> (\<forall>j < WORD_LENGTH. ls ! j \<noteq> Present) \<and>
             (\<forall>j. n \<le> j \<and> j < WORD_LENGTH \<longrightarrow> ls ! j = Absent)"
  using n
proof (induction n)
  case 0
  have "credited g (replicate WORD_LENGTH Absent) L = 0" for L
    by (simp add: credited_def)
  moreover have "count_list (map Chr t) (Chr L) = count_list t L" for L
    by (induction t) auto
  ultimately show ?case by (simp add: balanced_def)
next
  case (Suc n)
  obtain ta ls where st: "fold (first_pass_step g) [0..<n] (map Chr t, replicate WORD_LENGTH Absent) = (ta, ls)"
    by (cases "fold (first_pass_step g) [0..<n] (map Chr t, replicate WORD_LENGTH Absent)")
  with Suc have bal: "balanced t g (ta, ls)" and np: "\<forall>j < WORD_LENGTH. ls ! j \<noteq> Present"
    and rest: "\<forall>j. n \<le> j \<and> j < WORD_LENGTH \<longrightarrow> ls ! j = Absent"
    by auto
  have nlt: "n < WORD_LENGTH" using Suc.prems by simp
  have len: "length ls = WORD_LENGTH" using bal by (simp add: balanced_def)
  have step: "fold (first_pass_step g) [0..<Suc n] (map Chr t, replicate WORD_LENGTH Absent)
              = first_pass_step g n (ta, ls)"
    using st by simp
  show ?case
  proof (cases "string_get g n = array_get ta n")
    case True
    with g nlt have j: "n < length ta" "ta ! n = Chr (g ! n)"
      by (cases "ta ! n"; auto simp: string_get_def array_get_def split: if_splits)+
    have "balanced t g (array_set ta n Null, ls[n := Correct])"
      using consume_balanced[OF bal nlt _ j] rest nlt by simp
    moreover have "first_pass_step g n (ta, ls) = (array_set ta n Null, ls[n := Correct])"
      using True by (simp add: first_pass_step_def)
    ultimately show ?thesis unfolding step using rest np len nlt by (auto simp: nth_list_update)
  next
    case False
    then have "first_pass_step g n (ta, ls) = (ta, ls)"
      by (simp add: first_pass_step_def)
    then show ?thesis unfolding step using bal rest np by simp
  qed
qed

lemma second_pass_inv:
  assumes g: "length g = WORD_LENGTH" and n: "n \<le> WORD_LENGTH"
    and init: "balanced t g st0" "\<forall>j < WORD_LENGTH. snd st0 ! j \<noteq> Present"
  shows "case fold (second_pass_step g) [0..<n] st0 of
           (ta, ls) \<Rightarrow> balanced t g (ta, ls) \<and> (\<forall>j. n \<le> j \<and> j < WORD_LENGTH \<longrightarrow> ls ! j \<noteq> Present)"
  using n
proof (induction n)
  case 0
  with init show ?case by (cases st0) auto
next
  case (Suc n)
  obtain ta ls where st: "fold (second_pass_step g) [0..<n] st0 = (ta, ls)"
    by (cases "fold (second_pass_step g) [0..<n] st0")
  with Suc have bal: "balanced t g (ta, ls)" and rest: "\<forall>j. n \<le> j \<and> j < WORD_LENGTH \<longrightarrow> ls ! j \<noteq> Present"
    by auto
  have nlt: "n < WORD_LENGTH" using Suc.prems by simp
  have len: "length ls = WORD_LENGTH" using bal by (simp add: balanced_def)
  have step: "fold (second_pass_step g) [0..<Suc n] st0 = second_pass_step g n (ta, ls)"
    using st by simp
  show ?case
  proof (cases "ls ! n = Correct")
    case True
    then have "second_pass_step g n (ta, ls) = (ta, ls)"
      by (simp add: second_pass_step_def)
    then show ?thesis unfolding step using bal rest by simp
  next
    case False
    with rest nlt have abs: "ls ! n = Absent" by (cases "ls ! n") auto
    show ?thesis
    proof (cases "indexOf ta (string_get g n)")
      case None
      with False have "second_pass_step g n (ta, ls) = (ta, ls)"
        by (simp add: second_pass_step_def)
      then show ?thesis unfolding step using bal rest by simp
    next
      case (Some j)
      with g nlt have "indexOf ta (VChr (g ! n)) = Some j" by (simp add: string_get_def)
      then have j: "j < length ta" "ta ! j = Chr (g ! n)" using indexOf_Some by blast+
      have "balanced t g (array_set ta j Null, ls[n := Present])"
        using consume_balanced[OF bal nlt abs j] by simp
      moreover have "second_pass_step g n (ta, ls) = (array_set ta j Null, ls[n := Present])"
        using False Some by (simp add: second_pass_step_def)
      ultimately show ?thesis unfolding step using rest len nlt by (auto simp: nth_list_update)
    qed
  qed
qed

text \<open>
  Claim C1. For a guess and a target of length \<open>WORD_LENGTH\<close>, the scoring of
  processGuess gives each of the \<open>WORD_LENGTH\<close> positions one of the statuses
  correct, present and absent, and for every letter \<open>L\<close> the positions of the guess
  that hold \<open>L\<close> and are marked correct or present are at most as many as the
  occurrences of \<open>L\<close> in the target.
\<close>

theorem score_credits_bounded:
  assumes "length guess = WORD_LENGTH" and "length target = WORD_LENGTH"
  shows "length (score target guess) = WORD_LENGTH \<and>
         (\<forall>i < WORD_LENGTH. score target guess ! i \<in> {Correct, Present, Absent}) \<and>
         credited guess (score target guess) L \<le> count_list target L"
proof -
  obtain ta ls where fp: "first_pass target guess = (ta, ls)"
    by (cases "first_pass target guess")
  have "case first_pass target guess of
           (ta, ls) \<Rightarrow> balanced target guess (ta, ls) \<and> (\<forall>j < WORD_LENGTH. ls ! j \<noteq> Present) \<and>
             (\<forall>j. WORD_LENGTH \<le> j \<and> j < WORD_LENGTH \<longrightarrow> ls ! j = Absent)"
    unfolding first_pass_def using first_pass_inv[OF assms(1) order_refl] .
  with fp have bal1: "balanced target guess (first_pass target guess)"
    and np: "\<forall>j < WORD_LENGTH. snd (first_pass target guess) ! j \<noteq> Present"
    by simp_all
  obtain ta' ls' where sp:
    "fold (second_pass_step guess) [0..<WORD_LENGTH] (first_pass target guess) = (ta', ls')"
    by (cases "fold (second_pass_step guess) [0..<WORD_LENGTH] (first_pass target guess)")
  with second_pass_inv[OF assms(1) order_refl bal1 np]
  have bal2: "balanced target guess (ta', ls')" by simp
  have sc: "score target guess = ls'" using sp by (simp add: score_def)
  have "credited guess ls' L + count_list ta' (Chr L) = count_list target L"
    using bal2 by (simp add: balanced_def)
  then have "credited guess ls' L \<le> count_list target L" by linarith
  moreover have "length ls' = WORD_LENGTH" using bal2 by (simp add: balanced_def)
  moreover have "ls' ! i \<in> {Correct, Present, Absent}" for i
    by (cases "ls' ! i") simp_all
  ultimately show ?thesis using sc by simp
qed

theorem score_credits_bounded_witness:
  "length ''AABBB'' = WORD_LENGTH \<and> length ''ABABA'' = WORD_LENGTH \<and>
   length (score ''ABABA'' ''AABBB'') = WORD_LENGTH \<and>
   credited ''AABBB'' (score ''ABABA'' ''AABBB'') (CHR ''A'') \<le> count_list ''ABABA'' (CHR ''A'')"
proof -
  have g: "length ''AABBB'' = WORD_LENGTH" by (simp add: WORD_LENGTH_def)
  have t: "length ''ABABA'' = WORD_LENGTH" by (simp add: WORD_LENGTH_def)
  from score_credits_bounded[OF g t, of "CHR ''A''"] g t show ?thesis by blast
qed

section \<open>The state after a first visit\<close>

lemma first_visit_eq:
  "first_visit sb k cloud =
     \<lparr>targetWord = WORDS ! k, currentRow = 0, currentTile = 0, gameOver = False,
      stats = (case cloud of Some st \<Rightarrow> st | None \<Rightarrow> DEFAULT_STATS),
      isValidating = False, inputEnabled = True, gameStarted = False,
      board = (\<lambda>p. if p \<in> set all_positions then Some new_tile else None),
      message = None, modal = None, ls_gameState = None, ls_activeGame = None, ls_stats = None,
      ss_session = True, supabase = sb, pending = []\<rparr>"
  by (simp add: first_visit_def page_load_def initGame_def module_init_def no_storage_def
      initSessionProtection_def restoreGameState_def createBoard_def stored_stats_def
      split: option.split cong: if_cong)

section \<open>Statistics at the end of a game\<close>

lemma bit_length_le: "m < 2 ^ k \<Longrightarrow> bit_length m \<le> k"
proof (induction k arbitrary: m)
  case 0
  then have "m = 0" by simp
  then show ?case by (simp add: bit_length.simps)
next
  case (Suc k)
  show ?case
  proof (cases "m = 0")
    case True
    then show ?thesis by (simp add: bit_length.simps)
  next
    case False
    from Suc.prems have "m div 2 < 2 ^ k" by simp
    then have "bit_length (m div 2) \<le> k" by (rule Suc.IH)
    with False show ?thesis by (subst bit_length.simps) simp
  qed
qed

lemma bit_length_eq: "2 ^ k \<le> m \<Longrightarrow> m < 2 ^ Suc k \<Longrightarrow> bit_length m = Suc k"
proof (induction k arbitrary: m)
  case 0
  then have "m = 1" by simp
  then show ?case by (simp add: bit_length.simps)
next
  case (Suc k)
  from Suc.prems have "2 ^ k \<le> m div 2" "m div 2 < 2 ^ Suc k" by simp_all
  then have "bit_length (m div 2) = Suc k" by (rule Suc.IH)
  moreover from Suc.prems have "m \<noteq> 0" by auto
  ultimately show ?case by (subst bit_length.simps) simp
qed

lemma bit_length_54: "bit_length 9007199254740992 = 54" "bit_length 9007199254740993 = 54"
  by (rule bit_length_eq[of 53, simplified]; simp)+

lemma double_round_exact:
  assumes "\<bar>n\<bar> \<le> 2 ^ 53"
  shows "double_round n = n"
proof (cases "\<bar>n\<bar> < 2 ^ 53")
  case True
  then have "nat \<bar>n\<bar> < 2 ^ 53" by simp
  then have "bit_length (nat \<bar>n\<bar>) \<le> 53" by (rule bit_length_le)
  then show ?thesis by (simp add: double_round_def Let_def)
next
  case False
  with assms have "n = 9007199254740992 \<or> n = - 9007199254740992" by auto
  then show ?thesis by (auto simp: double_round_def Let_def bit_length_54)
qed

lemma js_increment_exact: "\<bar>x\<bar> < 2 ^ 53 \<Longrightarrow> js_increment x = x + 1"
  unfolding js_increment_def by (rule double_round_exact) simp

text \<open>At \<open>2 ^ 53\<close> the sum \<open>2 ^ 53 + 1\<close> is a tie and rounds back to \<open>2 ^ 53\<close>.\<close>

lemma js_increment_saturated: "js_increment 9007199254740992 = 9007199254740992"
  by (simp add: js_increment_def double_round_def Let_def bit_length_54)

text \<open>
  Claim C5, amended. When the checked guess equals the target word the session becomes
  terminal and \<open>maxStreak\<close> becomes the maximum of its old value and the new
  \<open>currentStreak\<close>; each of \<open>gamesPlayed\<close>, \<open>gamesWon\<close> and \<open>currentStreak\<close> that is an integer
  of magnitude below \<open>2 ^ 53\<close> grows by exactly one.
\<close>

theorem win_updates_stats:
  assumes "guess = targetWord s"
  shows "gameOver (checkGameResult guess s) \<and>
         (\<bar>gamesPlayed (stats s)\<bar> < 2 ^ 53 \<longrightarrow>
            gamesPlayed (stats (checkGameResult guess s)) = gamesPlayed (stats s) + 1) \<and>
         (\<bar>gamesWon (stats s)\<bar> < 2 ^ 53 \<longrightarrow>
            gamesWon (stats (checkGameResult guess s)) = gamesWon (stats s) + 1) \<and>
         (\<bar>currentStreak (stats s)\<bar> < 2 ^ 53 \<longrightarrow>
            currentStreak (stats (checkGameResult guess s)) = currentStreak (stats s) + 1) \<and>
         maxStreak (stats (checkGameResult guess s)) =
           max (maxStreak (stats s)) (currentStreak (stats (checkGameResult guess s)))"
  using assms
  by (simp add: checkGameResult_def endGameWon_def finish_game_def Let_def js_increment_exact)

theorem win_updates_stats_witness:
  "''CRANE'' = targetWord (first_visit False 0 None) \<and>
   \<bar>gamesPlayed (stats (first_visit False 0 None))\<bar> < 2 ^ 53 \<and>
   \<bar>gamesWon (stats (first_visit False 0 None))\<bar> < 2 ^ 53 \<and>
   \<bar>currentStreak (stats (first_visit False 0 None))\<bar> < 2 ^ 53 \<and>
   gameOver (checkGameResult ''CRANE'' (first_visit False 0 None)) \<and>
   gamesPlayed (stats (checkGameResult ''CRANE'' (first_visit False 0 None))) = 1 \<and>
   gamesWon (stats (checkGameResult ''CRANE'' (first_visit False 0 None))) = 1 \<and>
   currentStreak (stats (checkGameResult ''CRANE'' (first_visit False 0 None))) = 1 \<and>
   maxStreak (stats (checkGameResult ''CRANE'' (first_visit False 0 None))) = 1"
proof -
  have h: "''CRANE'' = targetWord (first_visit False 0 None)"
    by (simp add: first_visit_eq WORDS_def)
  have st: "stats (first_visit False 0 None) = DEFAULT_STATS"
    by (simp add: first_visit_eq)
  from win_updates_stats[OF h] h show ?thesis
    by (simp add: st DEFAULT_STATS_def)
qed

text \<open>
  Claim C5 as stated fails on a count of \<open>2 ^ 53\<close>, which the unvalidated statistics of
  the cloud or of localStorage can hold: the win leaves all three counts as they were.
\<close>

theorem win_updates_stats_counterexample:
  "''CRANE'' = targetWord (first_visit False 0 (Some saturated_stats)) \<and>
   gameOver (checkGameResult ''CRANE'' (first_visit False 0 (Some saturated_stats))) \<and>
   gamesPlayed (stats (checkGameResult ''CRANE'' (first_visit False 0 (Some saturated_stats))))
     \<noteq> gamesPlayed (stats (first_visit False 0 (Some saturated_stats))) + 1 \<and>
   gamesWon (stats (checkGameResult ''CRANE'' (first_visit False 0 (Some saturated_stats))))
     \<noteq> gamesWon (stats (first_visit False 0 (Some saturated_stats))) + 1 \<and>
   currentStreak (stats (checkGameResult ''CRANE'' (first_visit False 0 (Some saturated_stats))))
     \<noteq> currentStreak (stats (first_visit False 0 (Some saturated_stats))) + 1 \<and>
   stats (checkGameResult ''CRANE'' (first_visit False 0 (Some saturated_stats))) = saturated_stats"
  by (simp add: first_visit_eq WORDS_def checkGameResult_def endGameWon_def finish_game_def
      Let_def saturated_stats_def js_increment_saturated)

text \<open>
  Claim C6, amended. When the checked guess differs from the target word on the last
  attempt (\<open>currentRow = MAX_ATTEMPTS - 1\<close>) the session becomes terminal, \<open>currentStreak\<close>
  becomes 0, \<open>gamesWon\<close> and \<open>maxStreak\<close> stay as they were, and \<open>gamesPlayed\<close>, when it is an
  integer of magnitude below \<open>2 ^ 53\<close>, grows by exactly one.
\<close>

theorem loss_updates_stats:
  assumes "guess \<noteq> targetWord s" and "currentRow s = MAX_ATTEMPTS - 1"
  shows "gameOver (checkGameResult guess s) \<and>
         (\<bar>gamesPlayed (stats s)\<bar> < 2 ^ 53 \<longrightarrow>
            gamesPlayed (stats (checkGameResult guess s)) = gamesPlayed (stats s) + 1) \<and>
         currentStreak (stats (checkGameResult guess s)) = 0 \<and>
         gamesWon (stats (checkGameResult guess s)) = gamesWon (stats s) \<and>
         maxStreak (stats (checkGameResult guess s)) = maxStreak (stats s)"
  using assms
  by (simp add: checkGameResult_def endGameLost_def finish_game_def Let_def js_increment_exact)

theorem loss_updates_stats_witness:
  "''SLATE'' \<noteq> targetWord ((first_visit False 0 None)\<lparr>currentRow := 5\<rparr>) \<and>
   currentRow ((first_visit False 0 None)\<lparr>currentRow := 5\<rparr>) = MAX_ATTEMPTS - 1 \<and>
   \<bar>gamesPlayed (stats ((first_visit False 0 None)\<lparr>currentRow := 5\<rparr>))\<bar> < 2 ^ 53 \<and>
   gameOver (checkGameResult ''SLATE'' ((first_visit False 0 None)\<lparr>currentRow := 5\<rparr>)) \<and>
   gamesPlayed (stats (checkGameResult ''SLATE'' ((first_visit False 0 None)\<lparr>currentRow := 5\<rparr>))) = 1 \<and>
   currentStreak (stats (checkGameResult ''SLATE'' ((first_visit False 0 None)\<lparr>currentRow := 5\<rparr>))) = 0"
proof -
  have h1: "''SLATE'' \<noteq> targetWord ((first_visit False 0 None)\<lparr>currentRow := 5\<rparr>)"
    by (simp add: first_visit_eq WORDS_def)
  have h2: "currentRow ((first_visit False 0 None)\<lparr>currentRow := 5\<rparr>) = MAX_ATTEMPTS - 1"
    by (simp add: MAX_ATTEMPTS_def)
  have st: "stats ((first_visit False 0 None)\<lparr>currentRow := 5\<rparr>) = DEFAULT_STATS"
    by (simp add: first_visit_eq)
  from loss_updates_stats[OF h1 h2] h1 h2 show ?thesis
    by (simp add: st DEFAULT_STATS_def)
qed

text \<open>
  Claim C6 as stated fails on \<open>gamesPlayed = 2 ^ 53\<close>: the loss on the last attempt
  leaves the count as it was.
\<close>

theorem loss_updates_stats_counterexample:
  "''SLATE'' \<noteq> targetWord ((first_visit False 0 (Some saturated_stats))\<lparr>currentRow := 5\<rparr>) \<and>
   currentRow ((first_visit False 0 (Some saturated_stats))\<lparr>currentRow := 5\<rparr>) = MAX_ATTEMPTS - 1 \<and>
   gameOver (checkGameResult ''SLATE''
     ((first_visit False 0 (Some saturated_stats))\<lparr>currentRow := 5\<rparr>)) \<and>
   gamesPlayed (stats (checkGameResult ''SLATE''
     ((first_visit False 0 (Some saturated_stats))\<lparr>currentRow := 5\<rparr>)))
     \<noteq> gamesPlayed (stats ((first_visit False 0 (Some saturated_stats))\<lparr>currentRow := 5\<rparr>)) + 1 \<and>
   gamesPlayed (stats (checkGameResult ''SLATE''
     ((first_visit False 0 (Some saturated_stats))\<lparr>currentRow := 5\<rparr>))) = 9007199254740992"
  by (simp add: first_visit_eq WORDS_def MAX_ATTEMPTS_def checkGameResult_def endGameLost_def
      finish_game_def Let_def saturated_stats_def js_increment_saturated)

section \<open>A rejected guess\<close>

text \<open>
  Claim C3. submitGuess itself leaves the cursor, the board and the terminal flag alone.
  When the pending validity check of a guess then answers false or fails, the handler
  leaves \<open>currentRow\<close>, \<open>currentTile\<close>, the board, the terminal flag, the statistics and
  the target word as they were, shows a message, and clears \<open>isValidating\<close> in that same
  step.
\<close>

theorem rejected_guess_not_consumed:
  assumes "n < length (pending s)" and "pending s ! n = Validate guess"
    and "r = Resolved False \<or> r = Rejected"
  shows "currentRow (submitGuess s0) = currentRow s0 \<and>
         currentTile (submitGuess s0) = currentTile s0 \<and>
         board (submitGuess s0) = board s0 \<and>
         gameOver (submitGuess s0) = gameOver s0 \<and>
         currentRow (fire n r s) = currentRow s \<and>
         currentTile (fire n r s) = currentTile s \<and>
         board (fire n r s) = board s \<and>
         gameOver (fire n r s) = gameOver s \<and>
         stats (fire n r s) = stats s \<and>
         targetWord (fire n r s) = targetWord s \<and>
         \<not> isValidating (fire n r s) \<and>
         message (fire n r s) =
           Some (if r = Rejected then Error_validating_word else Not_in_word_list) \<and>
         pending (fire n r s) = take n (pending s) @ drop (Suc n) (pending s)"
proof -
  have "currentRow (submitGuess s0) = currentRow s0 \<and>
         currentTile (submitGuess s0) = currentTile s0 \<and>
         board (submitGuess s0) = board s0 \<and>
         gameOver (submitGuess s0) = gameOver s0"
    by (simp add: submitGuess_def showMessage_def split: option.split)
  moreover have "fire n r s =
      s\<lparr>pending := take n (pending s) @ drop (Suc n) (pending s),
        message := Some (if r = Rejected then Error_validating_word else Not_in_word_list),
        isValidating := False\<rparr>"
    using assms
    by (auto simp: fire_def validation_then_def validation_catch_def showMessage_def)
  ultimately show ?thesis by simp
qed

theorem rejected_guess_not_consumed_witness:
  "0 < length (pending (handleKeyPress Enter typed_crane)) \<and>
   pending (handleKeyPress Enter typed_crane) ! 0 = Validate ''CRANE'' \<and>
   isValidating (handleKeyPress Enter typed_crane) \<and>
   currentRow (fire 0 Rejected (handleKeyPress Enter typed_crane)) = 0 \<and>
   currentTile (fire 0 Rejected (handleKeyPress Enter typed_crane)) = 5 \<and>
   board (fire 0 Rejected (handleKeyPress Enter typed_crane)) =
     board (handleKeyPress Enter typed_crane) \<and>
   \<not> gameOver (fire 0 Rejected (handleKeyPress Enter typed_crane)) \<and>
   \<not> isValidating (fire 0 Rejected (handleKeyPress Enter typed_crane)) \<and>
   pending (fire 0 Rejected (handleKeyPress Enter typed_crane)) = []"
proof -
  have h1: "0 < length (pending (handleKeyPress Enter typed_crane))"
    by code_simp
  have h2: "pending (handleKeyPress Enter typed_crane) ! 0 = Validate ''CRANE''"
    by code_simp
  have v: "isValidating (handleKeyPress Enter typed_crane)"
    by code_simp
  have c: "currentRow (handleKeyPress Enter typed_crane) = 0 \<and>
           currentTile (handleKeyPress Enter typed_crane) = 5 \<and>
           \<not> gameOver (handleKeyPress Enter typed_crane) \<and>
           pending (handleKeyPress Enter typed_crane) = [Validate ''CRANE'']"
    by code_simp
  from rejected_guess_not_consumed[OF h1 h2, of Rejected] h1 h2 v c show ?thesis
    by simp
qed

section \<open>The input gate\<close>

lemma gate_inv_first_visit: "gate_inv (first_visit sb k cloud)"
  by (simp add: gate_inv_def first_visit_eq)

lemma gate_inv_press: "gate_inv s \<Longrightarrow> gate_inv (handleKeyPress key s)"
  by (cases key)
     (auto simp: gate_inv_def handleKeyPress_def submitGuess_def deleteLetter_def addLetter_def
        showMessage_def Let_def split: option.splits)

lemma gate_inv_run_task: "gate_inv s \<Longrightarrow> gate_inv (run_task t r s)"
  by (cases t; cases r)
     (auto simp: gate_inv_def validation_then_def validation_catch_def processGuess_def
        showMessage_def reveal_def check_timer_def checkGameResult_def endGameWon_def
        endGameLost_def finish_game_def Let_def split: option.splits)

lemma gate_inv_fire: "gate_inv s \<Longrightarrow> gate_inv (fire n r s)"
proof -
  assume inv: "gate_inv s"
  have "gate_inv (s\<lparr>pending := take n (pending s) @ drop (Suc n) (pending s)\<rparr>)"
    using inv by (simp add: gate_inv_def)
  then show ?thesis using inv by (simp add: fire_def gate_inv_run_task)
qed

lemma gate_inv_save: "gate_inv s \<Longrightarrow> gate_inv (saveCompleteGameState now s)"
  by (auto simp: gate_inv_def saveCompleteGameState_def split: option.splits)

lemma gate_inv_reset: "gate_inv s \<Longrightarrow> gate_inv (resetToNewGame k skip s)"
  by (auto simp: gate_inv_def resetToNewGame_def Let_def)

lemma gate_inv_page_load: "gate_inv s \<Longrightarrow> gate_inv (page_load k new_tab cloud s)"
  by (auto simp: gate_inv_def page_load_def initGame_def module_init_def createBoard_def
        initSessionProtection_def restoreGameState_def showMessage_def Let_def
        split: option.splits stored_snapshot.splits)

lemma reachable_gate_inv: "reachable offer s \<Longrightarrow> gate_inv s"
  by (induction rule: reachable.induct)
     (simp_all add: gate_inv_first_visit gate_inv_press gate_inv_fire gate_inv_save
        gate_inv_reset gate_inv_page_load)

section \<open>The target word\<close>

lemma WORDS_shape:
  "length WORDS = 40 \<and>
   (\<forall>w \<in> set WORDS. length w = WORD_LENGTH \<and> (\<forall>c \<in> set w. c \<in> set ''ABCDEFGHIJKLMNOPQRSTUVWXYZ''))"
  by (simp add: WORDS_def WORD_LENGTH_def)

lemma targetWord_press: "targetWord (handleKeyPress key s) = targetWord s"
  by (cases key)
     (auto simp: handleKeyPress_def submitGuess_def deleteLetter_def addLetter_def
        showMessage_def Let_def split: option.splits)

lemma targetWord_run_task: "targetWord (run_task t r s) = targetWord s"
  by (cases t; cases r)
     (auto simp: validation_then_def validation_catch_def processGuess_def
        showMessage_def reveal_def check_timer_def checkGameResult_def endGameWon_def
        endGameLost_def finish_game_def Let_def split: option.splits)

lemma targetWord_fire: "targetWord (fire n r s) = targetWord s"
  by (simp add: fire_def targetWord_run_task)

lemma targetWord_save: "targetWord (saveCompleteGameState now s) = targetWord s"
  by (auto simp: saveCompleteGameState_def split: option.splits)

lemma ls_gameState_press: "ls_gameState (handleKeyPress key s) = ls_gameState s"
  by (cases key)
     (auto simp: handleKeyPress_def submitGuess_def deleteLetter_def addLetter_def
        showMessage_def Let_def split: option.splits)

lemma ls_gameState_run_task:
  "ls_gameState (run_task t r s) = ls_gameState s \<or> ls_gameState (run_task t r s) = None"
  by (cases t; cases r)
     (auto simp: validation_then_def validation_catch_def processGuess_def
        showMessage_def reveal_def check_timer_def checkGameResult_def endGameWon_def
        endGameLost_def finish_game_def Let_def split: option.splits)

lemma word_inv_first_visit: "k < length WORDS \<Longrightarrow> word_inv (first_visit sb k cloud)"
  by (simp add: word_inv_def first_visit_eq)

lemma word_inv_press: "word_inv s \<Longrightarrow> word_inv (handleKeyPress key s)"
  by (simp add: word_inv_def targetWord_press ls_gameState_press)

lemma word_inv_fire: "word_inv s \<Longrightarrow> word_inv (fire n r s)"
proof -
  assume inv: "word_inv s"
  let ?s = "s\<lparr>pending := take n (pending s) @ drop (Suc n) (pending s)\<rparr>"
  have "word_inv (run_task t r ?s)" for t
    using inv ls_gameState_run_task[of t r ?s]
    by (auto simp: word_inv_def targetWord_run_task)
  then show ?thesis using inv by (simp add: fire_def)
qed

lemma word_inv_save: "word_inv s \<Longrightarrow> word_inv (saveCompleteGameState now s)"
  by (auto simp: word_inv_def saveCompleteGameState_def split: option.splits)

lemma word_inv_reset: "k < length WORDS \<Longrightarrow> word_inv (resetToNewGame k skip s)"
  by (auto simp: word_inv_def resetToNewGame_def Let_def)

lemma targetWord_page_load:
  "targetWord (page_load k new_tab cloud s) = WORDS ! k \<or>
   (\<exists>snap. ls_gameState s = Some (Parsed snap) \<and>
      targetWord (page_load k new_tab cloud s) = s_targetWord snap)"
  by (auto simp: page_load_def initGame_def module_init_def createBoard_def
        initSessionProtection_def restoreGameState_def showMessage_def Let_def
        split: option.splits stored_snapshot.splits)

lemma word_inv_page_load:
  "word_inv s \<Longrightarrow> k < length WORDS \<Longrightarrow> word_inv (page_load k new_tab cloud s)"
  by (auto simp: word_inv_def page_load_def initGame_def module_init_def createBoard_def
        initSessionProtection_def restoreGameState_def showMessage_def Let_def
        split: option.splits stored_snapshot.splits)

lemma reachable_word_inv: "reachable offer s \<Longrightarrow> word_inv s"
  by (induction rule: reachable.induct)
     (simp_all add: word_inv_first_visit word_inv_press word_inv_fire word_inv_save
        word_inv_reset word_inv_page_load)

text \<open>
  Claim C10. In every reachable state the target word is one of the 40 words of
  \<open>WORDS\<close>, each of five upper-case letters. Key presses, pending work and saving the
  snapshot leave it alone; a reset draws it from \<open>WORDS\<close>; a page load draws it from
  \<open>WORDS\<close> or takes it from the stored snapshot, which holds a word of \<open>WORDS\<close>.
\<close>

theorem target_word_from_list:
  assumes "reachable offer s"
  shows "targetWord s \<in> set WORDS \<and> length WORDS = 40 \<and>
         (\<forall>w \<in> set WORDS. length w = WORD_LENGTH \<and>
            (\<forall>c \<in> set w. c \<in> set ''ABCDEFGHIJKLMNOPQRSTUVWXYZ'')) \<and>
         length (targetWord s) = WORD_LENGTH \<and>
         (\<forall>c \<in> set (targetWord s). c \<in> set ''ABCDEFGHIJKLMNOPQRSTUVWXYZ'') \<and>
         targetWord (handleKeyPress key s) = targetWord s \<and>
         targetWord (fire n r s) = targetWord s \<and>
         targetWord (saveCompleteGameState now s) = targetWord s \<and>
         (k < length WORDS \<longrightarrow> targetWord (resetToNewGame k skip s) = WORDS ! k) \<and>
         (targetWord (page_load k new_tab cloud s) = WORDS ! k \<or>
          (\<exists>snap. ls_gameState s = Some (Parsed snap) \<and> s_targetWord snap \<in> set WORDS \<and>
             targetWord (page_load k new_tab cloud s) = s_targetWord snap))"
proof -
  have inv: "word_inv s" using assms by (rule reachable_word_inv)
  then have mem: "targetWord s \<in> set WORDS" by (simp add: word_inv_def)
  with WORDS_shape have shape: "length (targetWord s) = WORD_LENGTH \<and>
         (\<forall>c \<in> set (targetWord s). c \<in> set ''ABCDEFGHIJKLMNOPQRSTUVWXYZ'')"
    by blast
  have reset: "targetWord (resetToNewGame k skip s) = WORDS ! k"
    by (simp add: resetToNewGame_def Let_def)
  have load: "targetWord (page_load k new_tab cloud s) = WORDS ! k \<or>
          (\<exists>snap. ls_gameState s = Some (Parsed snap) \<and> s_targetWord snap \<in> set WORDS \<and>
             targetWord (page_load k new_tab cloud s) = s_targetWord snap)"
    using targetWord_page_load[of k new_tab cloud s] inv by (auto simp: word_inv_def)
  show ?thesis
    using mem shape reset load WORDS_shape
    by (simp add: targetWord_press targetWord_fire targetWord_save)
qed

theorem target_word_from_list_witness:
  "reachable (\<lambda>s. True) (first_visit False 0 None) \<and>
   targetWord (first_visit False 0 None) = ''CRANE'' \<and>
   targetWord (first_visit False 0 None) \<in> set WORDS \<and>
   length (targetWord (first_visit False 0 None)) = WORD_LENGTH"
proof -
  have r: "reachable (\<lambda>s. True) (first_visit False 0 None)"
    by (rule reachable.visit) (simp add: WORDS_def)
  have w: "targetWord (first_visit False 0 None) = ''CRANE''"
    by (simp add: first_visit_eq WORDS_def)
  from target_word_from_list[OF r] r w show ?thesis by blast
qed

section \<open>One guess at a time\<close>





















lemma reachable_typed_crane: "reachable offer (handleKeyPress Enter typed_crane)"
  unfolding typed_crane_def
  by (intro reachable.press reachable.visit) (simp add: WORDS_def)





text \<open>
  Claim C9. In every reachable state, whenever new games may be started: if
  \<open>isValidating\<close> holds and the game is not over then \<open>currentTile = WORD_LENGTH\<close>, and
  while \<open>isValidating\<close> holds a letter key changes nothing.
\<close>

theorem validating_row_is_full:
  assumes "reachable offer s"
  shows "(isValidating s \<and> \<not> gameOver s \<longrightarrow> currentTile s = WORD_LENGTH) \<and>
         (isValidating s \<longrightarrow> handleKeyPress (Other letter) s = s)"
proof -
  have "gate_inv s" using assms by (rule reachable_gate_inv)
  then show ?thesis by (auto simp: gate_inv_def handleKeyPress_def)
qed

theorem validating_row_is_full_witness:
  "reachable (\<lambda>s. True) (handleKeyPress Enter typed_crane) \<and>
   isValidating (handleKeyPress Enter typed_crane) \<and>
   \<not> gameOver (handleKeyPress Enter typed_crane) \<and>
   currentTile (handleKeyPress Enter typed_crane) = WORD_LENGTH \<and>
   handleKeyPress (Other ''X'') (handleKeyPress Enter typed_crane) =
     handleKeyPress Enter typed_crane"
proof -
  have r: "reachable (\<lambda>s. True) (handleKeyPress Enter typed_crane)"
    by (rule reachable_typed_crane)
  have v: "isValidating (handleKeyPress Enter typed_crane)"
    by code_simp
  have g: "\<not> gameOver (handleKeyPress Enter typed_crane)"
    by code_simp
  from validating_row_is_full[OF r, of "''X''"] r v g show ?thesis by blast
qed

section \<open>The cursor stays in range\<close>

lemma cursor_inv_first_visit: "cursor_inv (first_visit sb k cloud)"
  by (simp add: cursor_inv_def first_visit_eq MAX_ATTEMPTS_def)

lemma cursor_inv_addLetter: "cursor_inv s \<Longrightarrow> cursor_inv (addLetter letter s)"
  by (auto simp: cursor_inv_def addLetter_def Let_def split: option.splits)

lemma cursor_inv_deleteLetter: "cursor_inv s \<Longrightarrow> cursor_inv (deleteLetter s)"
  by (auto simp: cursor_inv_def deleteLetter_def Let_def split: option.splits)

lemma cursor_inv_submitGuess: "cursor_inv s \<Longrightarrow> cursor_inv (submitGuess s)"
  by (auto simp: cursor_inv_def submitGuess_def showMessage_def split: option.splits)

lemma cursor_inv_run_task: "cursor_inv s \<Longrightarrow> cursor_inv (run_task t r s)"
  by (cases t; cases r)
     (auto simp: cursor_inv_def validation_then_def validation_catch_def processGuess_def
        showMessage_def reveal_def check_timer_def checkGameResult_def endGameWon_def
        endGameLost_def finish_game_def Let_def MAX_ATTEMPTS_def split: option.splits)

lemma cursor_inv_fire: "cursor_inv s \<Longrightarrow> cursor_inv (fire n r s)"
proof -
  assume inv: "cursor_inv s"
  then have "cursor_inv (s\<lparr>pending := take n (pending s) @ drop (Suc n) (pending s)\<rparr>)"
    by (simp add: cursor_inv_def)
  then show ?thesis using inv by (simp add: fire_def cursor_inv_run_task)
qed

lemma cursor_inv_run_pending: "cursor_inv s \<Longrightarrow> cursor_inv (run_pending r s)"
proof (induction r s rule: run_pending.induct)
  case (1 r s)
  show ?case
  proof (cases "pending s = []")
    case True
    with "1.prems" show ?thesis by (subst run_pending.simps) simp
  next
    case False
    have "cursor_inv (fire 0 r s)" using "1.prems" by (rule cursor_inv_fire)
    with "1.IH"[OF False] have "cursor_inv (run_pending r (fire 0 r s))" .
    with False show ?thesis by (subst run_pending.simps) simp
  qed
qed

lemma cursor_inv_exec_op: "cursor_inv s \<Longrightarrow> cursor_inv (exec_op x s)"
  by (cases x)
     (simp_all add: cursor_inv_addLetter cursor_inv_deleteLetter cursor_inv_run_pending
        cursor_inv_submitGuess)

lemma cursor_inv_fold: "cursor_inv s \<Longrightarrow> cursor_inv (fold exec_op ops s)"
  by (induction ops arbitrary: s) (simp_all add: cursor_inv_exec_op)

lemma run_pending_empties: "pending (run_pending r s) = []"
proof (induction r s rule: run_pending.induct)
  case (1 r s)
  show ?case
  proof (cases "pending s = []")
    case True
    then show ?thesis by (subst run_pending.simps) simp
  next
    case False
    with "1.IH" show ?thesis by (subst run_pending.simps) simp
  qed
qed

text \<open>
  Claim C4. After every sequence of addLetter, deleteLetter and submit-and-score
  operations from a fresh session, \<open>currentTile \<le> WORD_LENGTH\<close> and
  \<open>currentRow < MAX_ATTEMPTS\<close> (terminal or not); deleteLetter at cursor 0 and addLetter
  at a full cursor change nothing.
\<close>

theorem cursor_stays_in_range:
  "currentTile (fold exec_op ops (first_visit sb k cloud)) \<le> WORD_LENGTH \<and>
   currentRow (fold exec_op ops (first_visit sb k cloud)) < MAX_ATTEMPTS \<and>
   (currentTile s = 0 \<longrightarrow> deleteLetter s = s) \<and>
   (currentTile s' \<ge> WORD_LENGTH \<longrightarrow> addLetter letter s' = s')"
proof -
  have "cursor_inv (fold exec_op ops (first_visit sb k cloud))"
    using cursor_inv_first_visit by (rule cursor_inv_fold)
  then show ?thesis by (simp add: cursor_inv_def deleteLetter_def addLetter_def)
qed

text \<open>The model runs: typing CRANE against the target CRANE and submitting wins the game.\<close>

lemma crane_wins:
  "gameOver (fold exec_op [AddLetter ''C'', AddLetter ''R'', AddLetter ''A'', AddLetter ''N'',
                           AddLetter ''E'', SubmitAndScore (Resolved True)]
               (first_visit False 0 None)) \<and>
   stats (fold exec_op [AddLetter ''C'', AddLetter ''R'', AddLetter ''A'', AddLetter ''N'',
                        AddLetter ''E'', SubmitAndScore (Resolved True)]
            (first_visit False 0 None)) =
     \<lparr>gamesPlayed = 1, gamesWon = 1, currentStreak = 1, maxStreak = 1\<rparr> \<and>
   map_option className
     (board (fold exec_op [AddLetter ''C'', AddLetter ''R'', AddLetter ''A'', AddLetter ''N'',
                           AddLetter ''E'', SubmitAndScore (Resolved True)]
               (first_visit False 0 None)) (0, 4)) = Some [''tile'', ''filled'', ''correct''] \<and>
   pending (fold exec_op [AddLetter ''C'', AddLetter ''R'', AddLetter ''A'', AddLetter ''N'',
                          AddLetter ''E'', SubmitAndScore (Resolved True)]
              (first_visit False 0 None)) = []"
  by code_simp

theorem cursor_stays_in_range_witness:
  "currentTile (first_visit False 0 None) = 0 \<and>
   deleteLetter (first_visit False 0 None) = first_visit False 0 None \<and>
   currentTile typed_crane \<ge> WORD_LENGTH \<and>
   addLetter ''X'' typed_crane = typed_crane \<and>
   currentTile (fold exec_op [AddLetter ''C'', AddLetter ''R'', AddLetter ''A'', AddLetter ''N'',
                              AddLetter ''E'', SubmitAndScore (Resolved True)]
                  (first_visit False 0 None)) \<le> WORD_LENGTH \<and>
   currentRow (fold exec_op [AddLetter ''C'', AddLetter ''R'', AddLetter ''A'', AddLetter ''N'',
                             AddLetter ''E'', SubmitAndScore (Resolved True)]
                 (first_visit False 0 None)) < MAX_ATTEMPTS"
proof -
  have h1: "currentTile (first_visit False 0 None) = 0"
    by (simp add: first_visit_eq)
  have h2: "currentTile typed_crane \<ge> WORD_LENGTH"
    by code_simp
  from cursor_stays_in_range[of "[AddLetter ''C'', AddLetter ''R'', AddLetter ''A'',
      AddLetter ''N'', AddLetter ''E'', SubmitAndScore (Resolved True)]" False 0 None
      "first_visit False 0 None" typed_crane "''X''"] h1 h2
  show ?thesis by blast
qed

section \<open>Restoring a snapshot\<close>

text \<open>
  Claim C2 says that a restore attempt that fails leaves the session as it was. For a
  snapshot that parses but has no \<open>boardState\<close> the code does not: before the attempt
  the session holds the word drawn at start-up and is not over; after
  initSessionProtection it holds the snapshot's word, row, cursor and terminal flag,
  the snapshot and the marker are removed, and since the terminal flag is set every
  key is ignored from then on.
\<close>

theorem corrupt_snapshot_half_applied:
  "targetWord (module_init 0 True corrupt_store) = ''CRANE'' \<and>
   currentRow (module_init 0 True corrupt_store) = 0 \<and>
   currentTile (module_init 0 True corrupt_store) = 0 \<and>
   \<not> gameOver (module_init 0 True corrupt_store) \<and>
   \<not> fst (restoreGameState ((module_init 0 True corrupt_store)\<lparr>ss_session := True\<rparr>)) \<and>
   targetWord (initSessionProtection (module_init 0 True corrupt_store)) = ''SLATE'' \<and>
   currentRow (initSessionProtection (module_init 0 True corrupt_store)) = 3 \<and>
   currentTile (initSessionProtection (module_init 0 True corrupt_store)) = 2 \<and>
   gameOver (initSessionProtection (module_init 0 True corrupt_store)) \<and>
   ls_gameState (initSessionProtection (module_init 0 True corrupt_store)) = None \<and>
   ls_activeGame (initSessionProtection (module_init 0 True corrupt_store)) = None \<and>
   handleKeyPress (Other ''C'') (page_load 0 True None corrupt_store) =
     page_load 0 True None corrupt_store"
  by (simp add: corrupt_store_def snapshot_without_board_def module_init_def no_storage_def
      initSessionProtection_def restoreGameState_def page_load_def initGame_def createBoard_def
      handleKeyPress_def WORDS_def stored_stats_def)

text \<open>A snapshot that does not parse is discarded with the session untouched.\<close>

lemma unparseable_snapshot_discarded:
  assumes "ls_gameState s = Some Unparseable" and "\<not> ss_session s"
  shows "initSessionProtection s =
           s\<lparr>ss_session := True, gameStarted := False, ls_gameState := None,
             ls_activeGame := None\<rparr>"
  using assms by (simp add: initSessionProtection_def restoreGameState_def)

lemma restore_on_empty_document: "fold restore_tile es (\<lambda>p. None) = (\<lambda>p. None)"
  by (induction es) (simp_all add: restore_tile_def)

lemma board_module_init: "board (module_init k new_tab s) = (\<lambda>p. None)"
  by (simp add: module_init_def)

lemma board_page_load:
  "board (page_load k new_tab cloud s) =
     (\<lambda>p. if p \<in> set all_positions then Some new_tile else None)"
  by (auto simp: page_load_def initGame_def module_init_def createBoard_def
        initSessionProtection_def restoreGameState_def showMessage_def Let_def
        restore_on_empty_document
        split: option.splits stored_snapshot.splits cong: if_cong)

lemma read_tiles_present:
  "\<forall>p \<in> set ps. b p \<noteq> None \<Longrightarrow> read_tiles ps b = Some (map (entry_of b) ps)"
  by (induction ps) (auto simp: entry_of_def)

lemma restore_tile_other: "q \<noteq> (e_row e, e_col e) \<Longrightarrow> restore_tile e d q = d q"
  by (simp add: restore_tile_def split: option.splits)

lemma restore_tile_at:
  "d p \<noteq> None \<Longrightarrow> c p = Some t \<Longrightarrow> restore_tile (entry_of c p) d p = Some t"
  by (cases p) (auto simp: restore_tile_def entry_of_def split: option.splits)

lemma fold_restore_other:
  "q \<notin> set ps \<Longrightarrow> fold restore_tile (map (entry_of c) ps) d q = d q"
proof (induction ps arbitrary: d)
  case Nil
  then show ?case by simp
next
  case (Cons p ps)
  then have "q \<noteq> (e_row (entry_of c p), e_col (entry_of c p))"
    by (simp add: entry_of_def)
  with Cons show ?case by (simp add: restore_tile_other)
qed

lemma fold_restore_at:
  "distinct ps \<Longrightarrow> q \<in> set ps \<Longrightarrow> d q \<noteq> None \<Longrightarrow> c q = Some t \<Longrightarrow>
   fold restore_tile (map (entry_of c) ps) d q = Some t"
proof (induction ps arbitrary: d)
  case Nil
  then show ?case by simp
next
  case (Cons p ps)
  show ?case
  proof (cases "q = p")
    case True
    with Cons.prems have "q \<notin> set ps" by simp
    then have "fold restore_tile (map (entry_of c) ps) (restore_tile (entry_of c p) d) q
               = restore_tile (entry_of c p) d q"
      by (rule fold_restore_other)
    with True Cons.prems show ?thesis by (simp add: restore_tile_at)
  next
    case False
    then have "q \<noteq> (e_row (entry_of c p), e_col (entry_of c p))"
      by (simp add: entry_of_def)
    then have "restore_tile (entry_of c p) d q = d q" by (rule restore_tile_other)
    with False Cons show ?thesis by simp
  qed
qed

lemma distinct_all_positions: "distinct all_positions"
  by (simp add: all_positions_def WORD_LENGTH_def MAX_ATTEMPTS_def upt_rec[of _ 5] upt_rec[of _ 6])

text \<open>
  Run on a document that holds the thirty tiles, restoreGameState reproduces what
  saveCompleteGameState wrote: the word, the row, the cursor and every tile.
\<close>

lemma save_restore_on_existing_tiles:
  assumes started: "gameStarted s" "\<not> gameOver s"
    and tiles: "\<forall>p \<in> set all_positions. board s p \<noteq> None"
    and doc: "\<forall>p \<in> set all_positions. board d p \<noteq> None"
    and store: "ls_gameState d = ls_gameState (saveCompleteGameState now s)"
      "ls_activeGame d = ls_activeGame (saveCompleteGameState now s)"
  shows "fst (restoreGameState d) \<and>
         targetWord (snd (restoreGameState d)) = targetWord s \<and>
         currentRow (snd (restoreGameState d)) = currentRow s \<and>
         currentTile (snd (restoreGameState d)) = currentTile s \<and>
         (\<forall>p \<in> set all_positions. board (snd (restoreGameState d)) p = board s p)"
proof -
  have rd: "read_tiles all_positions (board s) = Some (map (entry_of (board s)) all_positions)"
    using tiles by (rule read_tiles_present)
  have st: "ls_gameState d =
      Some (Parsed \<lparr>s_timestamp = now, s_active = True, s_targetWord = targetWord s,
                    s_currentRow = currentRow s, s_currentTile = currentTile s,
                    s_gameOver = gameOver s,
                    s_boardState = Some (map (entry_of (board s)) all_positions),
                    s_guesses = []\<rparr>)"
    and act: "ls_activeGame d = Some ''true''"
    using store started rd by (simp_all add: saveCompleteGameState_def)
  have brd: "fold restore_tile (map (entry_of (board s)) all_positions) (board d) p = board s p"
    if "p \<in> set all_positions" for p
  proof -
    from that tiles obtain t where t: "board s p = Some t" by auto
    from that doc have "board d p \<noteq> None" by simp
    with fold_restore_at[of all_positions p "board d" "board s" t] distinct_all_positions that t
    show ?thesis by simp
  qed
  show ?thesis
    using st act brd by (simp add: restoreGameState_def showMessage_def)
qed

text \<open>
  Claim C7 says that saving and then restoring reproduces the board. initGame calls
  initSessionProtection before createBoard, so restoreGameState finds no tile and
  skips every entry: after one letter, a save and a load of the page in a new tab, the
  word, the row and the cursor are back and the tile that held the letter is empty.
  After a load in the same tab sessionStorage still holds the session key, no restore
  is attempted, and the session is a new one.
\<close>

theorem reload_loses_board:
  "gameStarted one_letter_typed \<and> \<not> gameOver one_letter_typed \<and>
   currentTile one_letter_typed = 1 \<and>
   map_option textContent (board one_letter_typed (0, 0)) = Some ''C'' \<and>
   targetWord (page_load 1 True None (saveCompleteGameState 7 one_letter_typed)) = ''CRANE'' \<and>
   currentRow (page_load 1 True None (saveCompleteGameState 7 one_letter_typed)) = 0 \<and>
   currentTile (page_load 1 True None (saveCompleteGameState 7 one_letter_typed)) = 1 \<and>
   gameStarted (page_load 1 True None (saveCompleteGameState 7 one_letter_typed)) \<and>
   map_option textContent
     (board (page_load 1 True None (saveCompleteGameState 7 one_letter_typed)) (0, 0)) = Some '''' \<and>
   targetWord (page_load 1 False None (saveCompleteGameState 7 one_letter_typed)) = ''SLATE'' \<and>
   currentTile (page_load 1 False None (saveCompleteGameState 7 one_letter_typed)) = 0"
  by code_simp

end
